theory Spec2Isabelle
  imports Complex_Main
begin

section \<open>Python strings\<close>

text \<open>
  A Python \<open>str\<close> is modelled as a \<open>string\<close>, each \<open>char\<close> standing for one code
  point below 256. Within that range the characters of the digit class of a regular
  expression are \<open>0\<close> to \<open>9\<close>, the white space removed by \<open>str.strip()\<close> is the
  set of \<open>isspace\<close> below, and \<open>str.lower()\<close> is \<open>lower\<close>.
\<close>

definition isspace :: "char \<Rightarrow> bool" where
  "isspace c = ((of_char c :: nat) \<in> {9, 10, 11, 12, 13, 28, 29, 30, 31, 32, 133, 160})"

definition isdigit :: "char \<Rightarrow> bool" where
  "isdigit c = (48 \<le> (of_char c :: nat) \<and> (of_char c :: nat) \<le> 57)"

definition strip :: "string \<Rightarrow> string" where
  "strip s = rev (dropWhile isspace (rev (dropWhile isspace s)))"

definition lower_char :: "char \<Rightarrow> char" where
  "lower_char c =
     (let n = (of_char c :: nat)
      in if (65 \<le> n \<and> n \<le> 90) \<or> (192 \<le> n \<and> n \<le> 222 \<and> n \<noteq> 215)
         then char_of (n + 32) else c)"

definition lower :: "string \<Rightarrow> string" where
  "lower s = map lower_char s"

definition startswith :: "string \<Rightarrow> string \<Rightarrow> bool" where
  "startswith s p = (take (length p) s = p)"

text \<open>\<open>contains p s\<close> is Python's \<open>p in s\<close>.\<close>

fun contains :: "string \<Rightarrow> string \<Rightarrow> bool" where
  "contains p [] = (p = [])"
| "contains p (c # cs) = (startswith (c # cs) p \<or> contains p cs)"

text \<open>\<open>split c s\<close> is \<open>s.split(c)\<close> for a separator of one character.\<close>

fun split :: "char \<Rightarrow> string \<Rightarrow> string list" where
  "split c [] = [Nil]"
| "split c (x # xs) =
     (if x = c then [] # split c xs
      else (case split c xs of [] \<Rightarrow> [x] # [] | l # ls \<Rightarrow> (x # l) # ls))"

text \<open>\<open>join sep ls\<close> is \<open>sep.join(ls)\<close>.\<close>

fun join :: "string \<Rightarrow> string list \<Rightarrow> string" where
  "join sep [] = []"
| "join sep [l] = l"
| "join sep (l # l' # ls) = l @ sep @ join sep (l' # ls)"

definition newline :: char where
  "newline = CHR 0x0A"

section \<open>Python floats\<close>

text \<open>
  A non-negative binary64 value: \<open>Finite m e\<close> is \<open>m * 2 ^ e\<close> with
  \<open>0 \<le> m < 2 ^ 53\<close> and \<open>- 1074 \<le> e \<le> 971\<close>, normalised so that \<open>2 ^ 52 \<le> m\<close>
  unless \<open>e = - 1074\<close>; zero is \<open>Finite 0 0\<close>. The tokens that \<open>sort_price_range\<close>
  converts are runs of digits and dots: they carry no sign, no exponent and no letters,
  so negative values and NaN do not arise.
\<close>

datatype pyfloat = Finite int int | Infinity

function bitlen :: "int \<Rightarrow> int" where
  "bitlen n = (if n \<le> 0 then 0 else 1 + bitlen (n div 2))"
  by pat_completeness auto
termination
  by (relation "measure nat") auto

declare bitlen.simps [simp del]

definition round_half_even :: "int \<Rightarrow> int \<Rightarrow> int" where
  "round_half_even n d =
     (let q = n div d; r = n mod d
      in if 2 * r < d then q
         else if d < 2 * r then q + 1
         else if even q then q else q + 1)"

text \<open>
  \<open>to_double n d\<close> is the binary64 value nearest to the rational \<open>n / d\<close>
  (\<open>0 \<le> n\<close>, \<open>0 < d\<close>), ties to even, overflowing to infinity: the correctly rounded
  conversion that \<open>float(str)\<close> performs.
\<close>

definition to_double :: "int \<Rightarrow> int \<Rightarrow> pyfloat" where
  "to_double n d =
     (if n \<le> 0 then Finite 0 0
      else
        let k = bitlen n - bitlen d;
            fl = (if (if 0 \<le> k then d * 2 ^ nat k \<le> n else d \<le> n * 2 ^ nat (- k))
                  then k else k - 1);
            e = max (fl - 52) (- 1074);
            m = (if 0 \<le> e then round_half_even n (d * 2 ^ nat e)
                 else round_half_even (n * 2 ^ nat (- e)) d);
            e' = (if m = 2 ^ 53 then e + 1 else e);
            m' = (if m = 2 ^ 53 then 2 ^ 52 else m)
        in if 971 < e' then Infinity
           else if m' = 0 then Finite 0 0
           else Finite m' e')"

fun float_lt :: "pyfloat \<Rightarrow> pyfloat \<Rightarrow> bool" where
  "float_lt Infinity _ = False"
| "float_lt (Finite m e) Infinity = True"
| "float_lt (Finite m1 e1) (Finite m2 e2) =
     (m1 * 2 ^ nat (e1 - min e1 e2) < m2 * 2 ^ nat (e2 - min e1 e2))"

definition float_le :: "pyfloat \<Rightarrow> pyfloat \<Rightarrow> bool" where
  "float_le a b = (\<not> float_lt b a)"

text \<open>The builtins \<open>min(a, b)\<close> and \<open>max(a, b)\<close>: the first argument wins a tie.\<close>

definition py_min :: "pyfloat \<Rightarrow> pyfloat \<Rightarrow> pyfloat" where
  "py_min a b = (if float_lt b a then b else a)"

definition py_max :: "pyfloat \<Rightarrow> pyfloat \<Rightarrow> pyfloat" where
  "py_max a b = (if float_lt a b then b else a)"

subsection \<open>\<open>float(token)\<close>\<close>

definition digit_val :: "char \<Rightarrow> int" where
  "digit_val c = int (of_char c) - 48"

definition digits_val :: "string \<Rightarrow> int" where
  "digits_val ds = foldl (\<lambda>a c. 10 * a + digit_val c) 0 ds"

text \<open>
  Exceptions carry their message, the text \<open>str(e)\<close> gives. \<open>External\<close> stands for
  whatever an external collaborator (the generation service, the messaging transport)
  raises below \<open>Exception\<close>.
\<close>

datatype exn = ValueError string | IndexError string | External string

fun str_exn :: "exn \<Rightarrow> string" where
  "str_exn (ValueError m) = m"
| "str_exn (IndexError m) = m"
| "str_exn (External m) = m"

definition quoted :: "string \<Rightarrow> string" where
  "quoted s = [CHR 0x27] @ s @ [CHR 0x27]"

definition float_error :: "string \<Rightarrow> exn" where
  "float_error s = ValueError (''could not convert string to float: '' @ quoted s)"

text \<open>
  \<open>py_float\<close> is \<open>float(s)\<close> on a string of digits and dots, which is what the
  pattern delivers: such a string is a float literal when it holds at most one dot and
  at least one digit; otherwise \<open>float\<close> raises \<open>ValueError\<close>.
\<close>

definition py_float :: "string \<Rightarrow> exn + pyfloat" where
  "py_float s =
     (let ip = takeWhile isdigit s; r = dropWhile isdigit s
      in case r of
           [] \<Rightarrow> (if ip = [] then Inl (float_error s) else Inr (to_double (digits_val ip) 1))
         | c # fp \<Rightarrow>
             (if c = CHR ''.'' \<and> list_all isdigit fp \<and> ip @ fp \<noteq> []
              then Inr (to_double (digits_val (ip @ fp)) (10 ^ length fp))
              else Inl (float_error s)))"

subsection \<open>\<open>str(float)\<close>\<close>

function ndigits :: "int \<Rightarrow> int" where
  "ndigits n = (if n < 10 then 1 else 1 + ndigits (n div 10))"
  by pat_completeness auto
termination
  by (relation "measure nat") auto

declare ndigits.simps [simp del]

text \<open>
  For \<open>0 < n < d\<close>, \<open>lead_zeros n d\<close> is the number of zeros between the decimal point
  and the first significant digit of \<open>n / d\<close>.
\<close>

function lead_zeros :: "int \<Rightarrow> int \<Rightarrow> int" where
  "lead_zeros n d = (if n \<le> 0 \<or> d \<le> 10 * n then 0 else 1 + lead_zeros (10 * n) d)"
  by pat_completeness auto
termination
  by (relation "measure (\<lambda>(n, d). nat (d - n))") auto

declare lead_zeros.simps [simp del]

text \<open>\<open>decpt_of n d\<close> is the decimal exponent \<open>p\<close> with \<open>10 ^ (p - 1) \<le> n / d < 10 ^ p\<close>.\<close>

definition decpt_of :: "int \<Rightarrow> int \<Rightarrow> int" where
  "decpt_of n d = (if d \<le> n then ndigits (n div d) else - lead_zeros n d)"

text \<open>The decimal \<open>c * 10 ^ (- p)\<close> read back as a float.\<close>

definition dec_to_double :: "int \<Rightarrow> int \<Rightarrow> pyfloat" where
  "dec_to_double c p = (if 0 \<le> p then to_double c (10 ^ nat p) else to_double (c * 10 ^ nat (- p)) 1)"

text \<open>
  \<open>shortest x n d dp k fuel\<close> looks for the shortest decimal that reads back as the
  float \<open>x = n / d\<close>, trying \<open>k\<close>, \<open>k + 1\<close>, ... significant digits: with \<open>k\<close> digits
  the two candidates are the neighbours of \<open>x\<close> on the grid of spacing
  \<open>10 ^ (dp - k)\<close>, and of two that both read back as \<open>x\<close> the nearer is taken.
  Seventeen digits always suffice; when the fuel ends the nearest decimal is returned.
  The result is the pair \<open>(c, p)\<close> of the decimal \<open>c * 10 ^ (- p)\<close>.
\<close>

fun shortest :: "pyfloat \<Rightarrow> int \<Rightarrow> int \<Rightarrow> int \<Rightarrow> int \<Rightarrow> nat \<Rightarrow> int \<times> int" where
  "shortest x n d dp k fuel =
     (let p = k - dp;
          sn = (if 0 \<le> p then n * 10 ^ nat p else n);
          sd = (if 0 \<le> p then d else d * 10 ^ nat (- p));
          lo = sn div sd;
          r = sn mod sd;
          nearer_lo = (2 * r < sd \<or> (2 * r = sd \<and> even lo));
          lo_ok = (dec_to_double lo p = x);
          hi_ok = (dec_to_double (lo + 1) p = x)
      in case fuel of
           0 \<Rightarrow> (if nearer_lo then (lo, p) else (lo + 1, p))
         | Suc fuel' \<Rightarrow>
             (if lo_ok \<and> hi_ok then (if nearer_lo then (lo, p) else (lo + 1, p))
              else if lo_ok then (lo, p)
              else if hi_ok then (lo + 1, p)
              else shortest x n d dp (k + 1) fuel'))"

declare shortest.simps [simp del]

function str_nat :: "int \<Rightarrow> string" where
  "str_nat n = (if n < 10 then [char_of (48 + nat n)]
                else str_nat (n div 10) @ [char_of (48 + nat (n mod 10))])"
  by pat_completeness auto
termination
  by (relation "measure nat") auto

declare str_nat.simps [simp del]

definition strip_zeros :: "string \<Rightarrow> string" where
  "strip_zeros ds = rev (dropWhile (\<lambda>c. c = CHR ''0'') (rev ds))"

text \<open>
  \<open>float_repr\<close> is \<open>repr\<close> of a float, which the f-string uses for a float with an
  empty format specification: the shortest digits, in positional notation with at
  least one digit after the point when \<open>- 4 < decpt \<le> 16\<close>, and in exponent
  notation with a sign and at least two exponent digits otherwise.
\<close>

definition format_digits :: "string \<Rightarrow> int \<Rightarrow> string" where
  "format_digits ds decpt =
     (if decpt \<le> - 4 \<or> 16 < decpt then
        (let ex = decpt - 1;
             es = str_nat (abs ex)
         in take 1 ds @ (if 1 < length ds then ''.'' @ drop 1 ds else [])
            @ ''e'' @ (if ex < 0 then ''-'' else ''+'')
            @ (if length es < 2 then ''0'' @ es else es))
      else if decpt \<le> 0 then ''0.'' @ replicate (nat (- decpt)) (CHR ''0'') @ ds
      else if int (length ds) \<le> decpt
        then ds @ replicate (nat (decpt - int (length ds))) (CHR ''0'') @ ''.0''
      else take (nat decpt) ds @ ''.'' @ drop (nat decpt) ds)"

text \<open>The characters a float is printed with.\<close>

definition repr_char :: "char \<Rightarrow> bool" where
  "repr_char c = (isdigit c \<or> c \<in> set ''.e+-inf'')"

definition float_repr :: "pyfloat \<Rightarrow> string" where
  "float_repr x =
     (case x of
        Infinity \<Rightarrow> ''inf''
      | Finite m e \<Rightarrow>
          (if m = 0 then ''0.0''
           else
             let n = (if 0 \<le> e then m * 2 ^ nat e else m);
                 d = (if 0 \<le> e then 1 else 2 ^ nat (- e));
                 (c, p) = shortest x n d (decpt_of n d) 1 16
             in format_digits (strip_zeros (str_nat c)) (ndigits c - p)))"

section \<open>The normalizer's post-processing\<close>

text \<open>
  \<open>findall_num s\<close> is the \<open>re.findall\<close> of \<open>sort_price_range\<close>, whose pattern is one
  or more characters that are a digit or a dot: the maximal runs of digits and dots of
  \<open>s\<close>, from left to right.
\<close>

definition num_char :: "char \<Rightarrow> bool" where
  "num_char c = (isdigit c \<or> c = CHR ''.'')"

function findall_num :: "string \<Rightarrow> string list" where
  "findall_num [] = []"
| "findall_num (c # cs) =
     (if num_char c then (c # takeWhile num_char cs) # findall_num (dropWhile num_char cs)
      else findall_num cs)"
  by pat_completeness auto
termination
  by (relation "measure length") (auto simp: length_dropWhile_le less_Suc_eq_le)

text \<open>
  \<open>sort_price_range\<close>: the bare \<open>except\<close> turns a \<open>ValueError\<close> of either \<open>float\<close>
  call into the fall-through \<open>return price_range_str\<close>.
\<close>

definition sort_price_range :: "string \<Rightarrow> string" where
  "sort_price_range price_range_str =
     (let numbers = findall_num price_range_str
      in if length numbers = 2 then
           (case py_float (numbers ! 0) of
              Inl _ \<Rightarrow> price_range_str
            | Inr num1 \<Rightarrow>
                (case py_float (numbers ! 1) of
                   Inl _ \<Rightarrow> price_range_str
                 | Inr num2 \<Rightarrow>
                     float_repr (py_min num1 num2) @ '' - '' @ float_repr (py_max num1 num2)))
         else price_range_str)"

text \<open>The body of the loop of \<open>format_final_response\<close>, for one line.\<close>

definition format_line :: "string \<Rightarrow> string" where
  "format_line line =
     (if startswith line ''Entry:'' \<and> contains '' - '' line then
        (let prefix = hd (split (CHR '':'') line) @ '': '';
             price_range = strip (drop (length prefix) line);
             sorted_range = sort_price_range price_range
         in prefix @ sorted_range)
      else line)"

definition format_final_response :: "string \<Rightarrow> string" where
  "format_final_response response_text =
     join [newline] (map format_line (split newline response_text))"

section \<open>The signal normalizer\<close>

text \<open>The prompt of \<open>process_with_llm\<close>, with the message in its place.\<close>

definition prompt :: "string \<Rightarrow> string" where
  "prompt message_text = join [newline]
     [''You are a trading signal validator and formatter. First validate if this is a ''
        @ ''valid trading signal, then if valid, format it according to the rules.'',
      [],
      ''Original message:'',
      message_text,
      [],
      ''Step 1 - Validation:'',
      ''A valid trading signal usually has:'',
      ''- Entry price or range'',
      ''- Stop loss'',
      ''- Direction (buy/sell)'',
      ''- Take profit (optional)'',
      [],
      ''Step 2 - If valid, format using these rules:'',
      ''1. Keep exactly these fields in this order:'',
      ''   - Asset'',
      ''   - Type (BUY/SELL)'',
      ''   - Entry (single price or range)'',
      ''   - Stop Loss'',
      ''   - Take Profit (multiple targets if present)'',
      ''2. For ranges, always put lower value first'',
      ''3. Keep exact numbers, don'' @ [CHR 0x27] @ ''t modify values'',
      ''4. Remove any extra text or commentary'',
      ''5. If the message has Buy now or Sell now. Add a property to the final response called '' @ [CHR 0x22]
        @ ''At: NOW'' @ [CHR 0x22],
      ''6. Use exactly this format:'',
      ''Asset: [Symbol]'',
      ''Type: [BUY/SELL]'',
      ''Entry: [Price] or [Low - High]'',
      ''Stop Loss: [Price]'',
      ''Take Profit: [TP1] [TP2] [TP3]'',
      [],
      ''Respond in this exact format:'',
      ''VALID: [true/false]'',
      ''REASON: [If invalid, explain why. If valid, write '' @ [CHR 0x22]
        @ ''Valid trading signal'' @ [CHR 0x22] @ '']'',
      ''FORMAT:'',
      ''[If valid, include the formatted message here using the format above]'',
      [],
      ''Example Response for Valid Message:'',
      ''VALID: true'',
      ''REASON: Valid trading signal'',
      ''FORMAT:'',
      ''Asset: GOLD'',
      ''Type: BUY'',
      ''Entry: 2930.88 - 2934.88'',
      ''Stop Loss: 2926.88'',
      ''Take Profit: 2936.68'',
      [],
      ''Example Response for Invalid Message:'',
      ''VALID: false'',
      ''REASON: Missing stop loss level'',
      ''FORMAT: None'']"

text \<open>
  \<open>first_line p sections\<close> is \<open>next((line for line in sections if line.startswith(p)), '')\<close>.
\<close>

definition first_line :: "string \<Rightarrow> string list \<Rightarrow> string" where
  "first_line p sections = (case filter (\<lambda>line. startswith line p) sections of [] \<Rightarrow> [] | line # _ \<Rightarrow> line)"

text \<open>\<open>split1 c s\<close> is \<open>s.split(c, 1)\<close>, and \<open>item xs i\<close> is \<open>xs[i]\<close> for \<open>0 \<le> i\<close>.\<close>

definition split1 :: "char \<Rightarrow> string \<Rightarrow> string list" where
  "split1 c s =
     (if c \<in> set s then [takeWhile (\<lambda>x. x \<noteq> c) s, tl (dropWhile (\<lambda>x. x \<noteq> c) s)] else [s])"

definition item :: "'a list \<Rightarrow> nat \<Rightarrow> exn + 'a" where
  "item xs i = (if i < length xs then Inr (xs ! i) else Inl (IndexError ''list index out of range''))"

text \<open>
  \<open>index_of xs x\<close> is \<open>xs.index(x)\<close>; the message of its \<open>ValueError\<close> is the one of
  CPython 3.6 to 3.12.
\<close>

fun index_of :: "string list \<Rightarrow> string \<Rightarrow> exn + nat" where
  "index_of [] x = Inl (ValueError (quoted x @ '' is not in list''))"
| "index_of (y # ys) x =
     (if y = x then Inr 0
      else (case index_of ys x of Inl e \<Rightarrow> Inl e | Inr i \<Rightarrow> Inr (Suc i)))"

text \<open>
  The outcome of the normalizer: \<open>(isValid, reason, formattedText)\<close>, with \<open>None\<close> for
  Python's \<open>None\<close>.
\<close>

type_synonym verdict = "bool \<times> string option \<times> string option"

text \<open>
  \<open>parse_response\<close> is the body of the \<open>try\<close> of \<open>process_with_llm\<close> from the test of
  \<open>response.text\<close> on; \<open>Inl\<close> is an exception that reaches the handler.
\<close>

definition parse_response :: "string \<Rightarrow> exn + verdict" where
  "parse_response text =
     (if text = [] then Inr (False, Some ''Empty response from LLM'', None)
      else
        let sections = split newline (strip text);
            valid_line = first_line ''VALID:'' sections;
            is_valid = contains ''true'' (lower valid_line);
            reason_line = first_line ''REASON:'' sections
        in case (if reason_line \<noteq> []
                 then (case item (split1 (CHR '':'') reason_line) 1 of
                         Inl e \<Rightarrow> Inl e | Inr r \<Rightarrow> Inr (Some (strip r)))
                 else Inr None) of
             Inl e \<Rightarrow> Inl e
           | Inr reason \<Rightarrow>
               if \<not> is_valid then Inr (False, reason, None)
               else
                 (case index_of sections ''FORMAT:'' of
                    Inl e \<Rightarrow> Inl e
                  | Inr i \<Rightarrow>
                      let format_section = strip (join [newline] (drop (i + 1) sections))
                      in if format_section = [] \<or> format_section = ''None''
                         then Inr (False, Some ''Failed to format message'', None)
                         else Inr (True, None, Some (format_final_response format_section))))"

text \<open>
  \<open>process_with_llm\<close>: the generation service is the parameter \<open>generate\<close>, giving for a
  prompt either the exception that \<open>model.generate_content(prompt)\<close> or the access to
  \<open>response.text\<close> raises, or the text of the response. The exceptions here are those
  below \<open>Exception\<close>, which the \<open>except Exception\<close> of the function catches; what the
  caller sees of the others is in \<open>call_process_with_llm\<close> below.
\<close>

definition process_with_llm :: "(string \<Rightarrow> exn + string) \<Rightarrow> string \<Rightarrow> verdict" where
  "process_with_llm generate message_text =
     (case (case generate (prompt message_text) of
              Inl e \<Rightarrow> Inl e
            | Inr text \<Rightarrow> parse_response text) of
        Inl e \<Rightarrow> (False, Some (''Error processing message: '' @ str_exn e), None)
      | Inr v \<Rightarrow> v)"

text \<open>
  A generation service that answers every prompt with the same text, and one that
  raises the same exception on every prompt.
\<close>

definition canned :: "string \<Rightarrow> string \<Rightarrow> exn + string" where
  "canned text p = Inr text"

definition raising :: "exn \<Rightarrow> string \<Rightarrow> exn + string" where
  "raising e p = Inl e"

text \<open>
  What a call can raise: \<open>Exc e\<close> is an exception below \<open>Exception\<close>; \<open>BaseExc b\<close> is
  one outside it (\<open>asyncio.CancelledError\<close>, \<open>KeyboardInterrupt\<close>, \<open>SystemExit\<close>), named
  by \<open>b\<close>, which an \<open>except Exception\<close> clause does not catch.
\<close>

datatype raised = Exc exn | BaseExc string

text \<open>
  The call \<open>process_with_llm(message_text)\<close> as its caller sees it, the generation
  service now giving any exception: one outside \<open>Exception\<close> passes the
  \<open>except Exception\<close> of \<open>process_with_llm\<close> and leaves the call; every other outcome
  of the service is handled inside, and the call returns a verdict.
\<close>

definition call_process_with_llm :: "(string \<Rightarrow> raised + string) \<Rightarrow> string \<Rightarrow> raised + verdict" where
  "call_process_with_llm generate message_text =
     (case generate (prompt message_text) of
        Inl (BaseExc b) \<Rightarrow> Inl (BaseExc b)
      | Inl (Exc e) \<Rightarrow> Inr (process_with_llm (raising e) message_text)
      | Inr text \<Rightarrow> Inr (process_with_llm (canned text) message_text))"

section \<open>The message relay\<close>

record chat =
  title :: string
  chat_id :: int

record message =
  raw_text :: string
  message_id :: int

datatype level = DEBUG | INFO | WARNING | ERROR

text \<open>
  What the handler does to the outside, in order: the lookup of the chat, log records,
  \<open>send_message(entity, text, link_preview)\<close> and \<open>forward_messages(entity, message)\<close>.
\<close>

datatype effect =
    GetChat
  | Log level string
  | SendMessage int string bool
  | ForwardMessages int message

text \<open>
  The outside, for one event: what \<open>event.get_chat()\<close> gives, the generation service,
  whether \<open>send_message\<close> raises on a text, whether the \<open>n\<close>-th call of
  \<open>forward_messages\<close> raises, and the configured destination. Each of them may raise
  an exception below \<open>Exception\<close> or one outside it.
\<close>

record world =
  get_chat :: "raised + chat"
  generate_content :: "string \<Rightarrow> raised + string"
  send_message :: "string \<Rightarrow> raised option"
  forward_messages :: "nat \<Rightarrow> raised option"
  destination_group :: int

definition str_int :: "int \<Rightarrow> string" where
  "str_int i = (if i < 0 then ''-'' @ str_nat (- i) else str_nat i)"

definition str_opt :: "string option \<Rightarrow> string" where
  "str_opt r = (case r of None \<Rightarrow> ''None'' | Some s \<Rightarrow> s)"

fun is_forward :: "effect \<Rightarrow> bool" where
  "is_forward (ForwardMessages _ _) = True"
| "is_forward _ = False"

text \<open>The \<open>else\<close> branch of \<open>if formatted_message\<close>, reached with the effects \<open>t\<close> so far.\<close>

definition forward_original :: "world \<Rightarrow> message \<Rightarrow> effect list \<Rightarrow> effect list \<times> (raised + unit)" where
  "forward_original w msg t =
     (let t' = t @ [Log WARNING ''LLM formatting failed, forwarding original message'',
                    ForwardMessages (destination_group w) msg]
      in case forward_messages w (length (filter is_forward t)) of
           Some r \<Rightarrow> (t', Inl r)
         | None \<Rightarrow> (t', Inr ()))"

text \<open>
  The body of the \<open>try\<close> of \<open>message_handler\<close>: the effects, and \<open>Inl r\<close> when the
  exception \<open>r\<close> leaves it.
\<close>

definition handler_body :: "world \<Rightarrow> message \<Rightarrow> effect list \<times> (raised + unit)" where
  "handler_body w msg =
     (case get_chat w of
        Inl r \<Rightarrow> ([GetChat], Inl r)
      | Inr c \<Rightarrow>
          let message_text = raw_text msg;
              t = [GetChat,
                   Log INFO (''Received message from source group: '' @ title c
                             @ '' (ID: '' @ str_int (chat_id c) @ '')'')]
          in if message_text = [] then (t @ [Log DEBUG ''Skipping empty message''], Inr ())
             else
               (case call_process_with_llm (generate_content w) message_text of
                  Inl r \<Rightarrow> (t, Inl r)
                | Inr (is_valid, reason, formatted_message) \<Rightarrow>
                    if \<not> is_valid
                    then (t @ [Log DEBUG (''Skipping invalid trading message: '' @ str_opt reason)],
                          Inr ())
                    else
                      (case formatted_message of
                         None \<Rightarrow> forward_original w msg t
                       | Some fm \<Rightarrow>
                           if fm = [] then forward_original w msg t
                           else
                             (case send_message w fm of
                                Some r \<Rightarrow>
                                  (t @ [SendMessage (destination_group w) fm False], Inl r)
                              | None \<Rightarrow>
                                  (t @ [SendMessage (destination_group w) fm False,
                                        Log INFO (''Successfully processed and forwarded trading message:''
                                                  @ [newline] @ ''Original:'' @ [newline] @ message_text
                                                  @ [newline, newline] @ ''Formatted:'' @ [newline] @ fm)],
                                   Inr ())))))"

text \<open>
  \<open>message_handler\<close>. The clause \<open>except Exception\<close> catches what leaves the body below
  \<open>Exception\<close>: it logs the error and forwards the event's message, and the inner
  \<open>except Exception\<close> logs a failure of that forward below \<open>Exception\<close>. An exception
  outside \<open>Exception\<close> is caught by neither clause and leaves the handler. The second
  component is what the coroutine ends with: \<open>Inr ()\<close> for a normal return, \<open>Inl r\<close> for
  the exception \<open>r\<close>.
\<close>

definition message_handler :: "world \<Rightarrow> message \<Rightarrow> effect list \<times> (raised + unit)" where
  "message_handler w msg =
     (case handler_body w msg of
        (t, Inr u) \<Rightarrow> (t, Inr u)
      | (t, Inl (BaseExc b)) \<Rightarrow> (t, Inl (BaseExc b))
      | (t, Inl (Exc e)) \<Rightarrow>
          (let t' = t @ [Log ERROR (''Error processing message: '' @ str_exn e),
                         ForwardMessages (destination_group w) msg]
           in case forward_messages w (length (filter is_forward t)) of
                None \<Rightarrow> (t' @ [Log INFO ''Forwarded original message as fallback''], Inr ())
              | Some (Exc forward_error) \<Rightarrow>
                  (t' @ [Log ERROR (''Failed to forward original message: ''
                                    @ str_exn forward_error)],
                   Inr ())
              | Some (BaseExc b) \<Rightarrow> (t', Inl (BaseExc b))))"

section \<open>Sample inputs\<close>

text \<open>Responses of the generation service, used to run the model on concrete inputs.\<close>

definition response_without_format :: string where
  "response_without_format = ''VALID: true'' @ [newline] @ ''REASON: Valid trading signal''"

definition response_format_none :: string where
  "response_format_none =
     ''VALID: true'' @ [newline] @ ''REASON: Valid trading signal'' @ [newline]
     @ ''FORMAT:'' @ [newline] @ ''None''"

definition response_indented :: string where
  "response_indented =
     '' VALID: true'' @ [newline] @ ''FORMAT:'' @ [newline] @ ''Asset: GOLD''"

definition response_no_valid :: string where
  "response_no_valid = ''REASON: Missing stop loss level'' @ [newline] @ ''FORMAT: None''"

definition response_valid :: string where
  "response_valid =
     ''VALID: true'' @ [newline] @ ''REASON: Valid trading signal'' @ [newline]
     @ ''FORMAT:'' @ [newline] @ ''Asset: GOLD'' @ [newline] @ ''Entry: 2934.88 - 2930.88''"

text \<open>
  A generation service that answers every prompt with the same text, one that raises
  on every prompt, and a transport call that raises whatever its argument.
\<close>

definition answering :: "string \<Rightarrow> string \<Rightarrow> raised + string" where
  "answering text p = Inr text"

definition failing :: "raised \<Rightarrow> string \<Rightarrow> raised + string" where
  "failing r p = Inl r"

definition refuse :: "raised \<Rightarrow> 'a \<Rightarrow> raised option" where
  "refuse r x = Some r"

definition accept :: "'a \<Rightarrow> raised option" where
  "accept x = None"

text \<open>
  Worlds in which the generation service accepts the signal and the transport refuses
  the send: with an exception below \<open>Exception\<close>, the fallback forward being refused
  too (\<open>failing_world\<close>) or going through (\<open>recovering_world\<close>) or being cancelled
  (\<open>interrupted_world\<close>), and with a cancellation of the send itself
  (\<open>cancelled_world\<close>). In \<open>quota_world\<close> the generation call raises, and in
  \<open>working_world\<close> nothing does.
\<close>

definition failing_world :: world where
  "failing_world =
     \<lparr>get_chat = Inr \<lparr>title = ''signals'', chat_id = - 1001\<rparr>,
      generate_content = answering response_valid,
      send_message = refuse (Exc (External ''flood wait'')),
      forward_messages = refuse (Exc (External ''forbidden'')),
      destination_group = 7\<rparr>"

definition recovering_world :: world where
  "recovering_world = failing_world\<lparr>forward_messages := accept\<rparr>"

definition interrupted_world :: world where
  "interrupted_world = failing_world\<lparr>forward_messages := refuse (BaseExc ''CancelledError'')\<rparr>"

definition cancelled_world :: world where
  "cancelled_world = failing_world\<lparr>send_message := refuse (BaseExc ''CancelledError'')\<rparr>"

definition quota_world :: world where
  "quota_world =
     failing_world\<lparr>generate_content := failing (Exc (External ''quota exceeded''))\<rparr>"

definition working_world :: world where
  "working_world = failing_world\<lparr>send_message := accept, forward_messages := accept\<rparr>"

definition sample_message :: message where
  "sample_message = \<lparr>raw_text = ''buy gold 2934.88 - 2930.88'', message_id = 1\<rparr>"

text \<open>
  The effects of the handler on \<open>sample_message\<close> in these worlds up to the call of the
  generation service, and up to the send.
\<close>

definition received_trace :: "effect list" where
  "received_trace =
     [GetChat, Log INFO ''Received message from source group: signals (ID: -1001)'']"

definition sent_trace :: "effect list" where
  "sent_trace =
     received_trace
     @ [SendMessage 7 (''Asset: GOLD'' @ [newline] @ ''Entry: 2930.88 - 2934.88'') False]"

section \<open>Lists of lines\<close>

lemma split_not_Nil [simp]: "split c s \<noteq> []"
  by (induction s) (auto split: list.splits)

lemma join_Cons_Cons: "join sep ((x # l) # ls) = x # join sep (l # ls)"
  by (cases ls) auto

lemma join_split: "join [c] (split c s) = s"
proof (induction s)
  case Nil
  show ?case by simp
next
  case (Cons x xs)
  obtain l ls where sp: "split c xs = l # ls"
    by (cases "split c xs") auto
  show ?case
  proof (cases "x = c")
    case True
    with Cons sp show ?thesis by simp
  next
    case False
    with Cons sp show ?thesis by (simp add: join_Cons_Cons)
  qed
qed

lemma split_free: "c \<notin> set l \<Longrightarrow> split c l = [l]"
  by (induction l) auto

lemma split_append_sep: "c \<notin> set l \<Longrightarrow> split c (l @ c # r) = l # split c r"
  by (induction l) auto

lemma split_join:
  "ls \<noteq> [] \<Longrightarrow> \<forall>l \<in> set ls. c \<notin> set l \<Longrightarrow> split c (join [c] ls) = ls"
proof (induction "[c]" ls rule: join.induct)
  case 1
  then show ?case by simp
next
  case (2 l)
  then show ?case by (simp add: split_free)
next
  case (3 l l' ls)
  then show ?case by (simp add: split_append_sep)
qed

lemma split_lines_free: "l \<in> set (split c s) \<Longrightarrow> c \<notin> set l"
proof (induction s arbitrary: l)
  case Nil
  then show ?case by simp
next
  case (Cons x xs)
  obtain h t where sp: "split c xs = h # t"
    by (cases "split c xs") auto
  from Cons sp show ?case
    by (auto split: if_splits)
qed

lemma set_hd_split: "set (hd (split c s)) \<subseteq> set s"
proof (induction s)
  case Nil
  show ?case by simp
next
  case (Cons x xs)
  obtain h t where sp: "split c xs = h # t"
    by (cases "split c xs") auto
  from Cons sp show ?case by auto
qed

lemma set_strip: "set (strip s) \<subseteq> set s"
proof -
  have "set (strip s) = set (dropWhile isspace (rev (dropWhile isspace s)))"
    by (simp add: strip_def)
  also have "\<dots> \<subseteq> set (rev (dropWhile isspace s))"
    by (rule set_dropWhileD[THEN subsetI]) 
  also have "\<dots> \<subseteq> set s"
    using set_dropWhileD by fastforce
  finally show ?thesis .
qed

lemma isdigit_char_of: "(k::nat) < 10 \<Longrightarrow> isdigit (char_of (48 + k))"
  by (simp add: isdigit_def)

lemma str_nat_digits: "c \<in> set (str_nat n) \<Longrightarrow> isdigit c"
proof (induction n arbitrary: c rule: str_nat.induct)
  case (1 n)
  show ?case
  proof (cases "n < 10")
    case True
    then have "nat n < 10" by simp
    with True "1.prems" show ?thesis
      by (simp add: str_nat.simps[of n] isdigit_char_of)
  next
    case False
    have "nat (n mod 10) < 10" by simp
    with False "1.prems" "1.IH" show ?thesis
      by (auto simp: str_nat.simps[of n] isdigit_char_of)
  qed
qed

lemma set_strip_zeros: "set (strip_zeros ds) \<subseteq> set ds"
  unfolding strip_zeros_def using set_dropWhileD by fastforce

lemma format_digits_chars:
  assumes "\<forall>c \<in> set ds. isdigit c"
  shows "\<forall>c \<in> set (format_digits ds p). repr_char c"
proof -
  have d: "\<And>c. c \<in> set ds \<Longrightarrow> repr_char c"
    using assms by (simp add: repr_char_def)
  have t: "\<And>c k. c \<in> set (take k ds) \<Longrightarrow> repr_char c"
    using d by (meson in_set_takeD)
  have dr: "\<And>c k. c \<in> set (drop k ds) \<Longrightarrow> repr_char c"
    using d by (meson in_set_dropD)
  have s: "\<And>c k. c \<in> set (str_nat k) \<Longrightarrow> repr_char c"
    using str_nat_digits by (simp add: repr_char_def)
  have z: "repr_char CHR ''0''" "repr_char CHR ''.''" "repr_char CHR ''e''"
    "repr_char CHR ''-''" "repr_char CHR ''+''"
    by (simp_all add: repr_char_def isdigit_def)
  show ?thesis
    unfolding format_digits_def Let_def
    using d t dr s z by (auto split: if_splits)
qed

lemma float_repr_chars: "\<forall>c \<in> set (float_repr x). repr_char c"
proof (cases x)
  case Infinity
  then show ?thesis by (simp add: float_repr_def repr_char_def)
next
  case (Finite m e)
  have ds: "\<And>k. \<forall>c \<in> set (strip_zeros (str_nat k)). isdigit c"
    using set_strip_zeros str_nat_digits by blast
  show ?thesis
  proof (cases "m = 0")
    case True
    with Finite show ?thesis by (simp add: float_repr_def repr_char_def isdigit_def)
  next
    case False
    define n where "n = (if 0 \<le> e then m * 2 ^ nat e else m)"
    define d where "d = (if 0 \<le> e then 1 else (2::int) ^ nat (- e))"
    obtain c p where sh: "shortest x n d (decpt_of n d) 1 16 = (c, p)"
      by (cases "shortest x n d (decpt_of n d) 1 16") auto
    have "float_repr x = format_digits (strip_zeros (str_nat c)) (ndigits c - p)"
      using Finite False sh by (simp add: float_repr_def Let_def n_def d_def)
    then show ?thesis
      using format_digits_chars[OF ds] by simp
  qed
qed

lemma newline_not_repr_char: "\<not> repr_char newline"
  by (simp add: repr_char_def newline_def isdigit_def)

lemma float_repr_no_newline: "newline \<notin> set (float_repr x)"
  using float_repr_chars newline_not_repr_char by blast

lemma sort_price_range_no_newline:
  "newline \<notin> set s \<Longrightarrow> newline \<notin> set (sort_price_range s)"
proof -
  assume s: "newline \<notin> set s"
  have sep: "newline \<notin> set '' - ''"
    by (simp add: newline_def)
  show ?thesis
    using s sep float_repr_no_newline
    by (simp add: sort_price_range_def Let_def split: sum.splits)
qed

lemma format_line_no_newline:
  assumes "newline \<notin> set l"
  shows "newline \<notin> set (format_line l)"
proof -
  have h: "newline \<notin> set (hd (split (CHR '':'') l))"
    using assms set_hd_split by blast
  have "newline \<notin> set (drop n l)" for n
    using assms by (meson in_set_dropD)
  then have "newline \<notin> set (strip (drop n l))" for n
    using set_strip by blast
  then have r: "newline \<notin> set (sort_price_range (strip (drop n l)))" for n
    by (rule sort_price_range_no_newline)
  have sep: "newline \<notin> set '': ''"
    by (simp add: newline_def)
  show ?thesis
    using assms h r sep by (simp add: format_line_def Let_def)
qed

lemma format_final_response_lines:
  "split newline (format_final_response text) = map format_line (split newline text)"
proof -
  have "\<forall>l \<in> set (map format_line (split newline text)). newline \<notin> set l"
    using split_lines_free format_line_no_newline by auto
  then show ?thesis
    unfolding format_final_response_def by (simp add: split_join)
qed

text \<open>
  \<open>float_lt\<close> and \<open>float_le\<close> are the order of the values \<open>m * 2 ^ e\<close>, taken as
  rational numbers.
\<close>

lemma two_powi_split:
  assumes "c \<le> e"
  shows "(2::rat) powi e = 2 ^ nat (e - c) * 2 powi c"
proof -
  have e: "e = int (nat (e - c)) + c" using assms by simp
  have "(2::rat) powi (int (nat (e - c)) + c) = 2 powi int (nat (e - c)) * 2 powi c"
    by (rule power_int_add) simp
  also have "(2::rat) powi int (nat (e - c)) = 2 ^ nat (e - c)"
    by (rule power_int_of_nat)
  finally show ?thesis using e by metis
qed

lemma float_lt_value:
  "float_lt (Finite m1 e1) (Finite m2 e2)
     \<longleftrightarrow> (of_int m1 * 2 powi e1 :: rat) < of_int m2 * 2 powi e2"
proof -
  define c where "c = min e1 e2"
  have c: "c \<le> e1" "c \<le> e2" by (simp_all add: c_def)
  have pos: "(0::rat) < 2 powi c" by simp
  have "(of_int m1 * 2 powi e1 :: rat) < of_int m2 * 2 powi e2
      \<longleftrightarrow> of_int (m1 * 2 ^ nat (e1 - c)) * (2::rat) powi c
            < of_int (m2 * 2 ^ nat (e2 - c)) * 2 powi c"
    by (simp add: two_powi_split[OF c(1)] two_powi_split[OF c(2)] mult.assoc)
  also have "\<dots> \<longleftrightarrow> (of_int (m1 * 2 ^ nat (e1 - c)) :: rat) < of_int (m2 * 2 ^ nat (e2 - c))"
    using pos by (rule mult_less_cancel_right_pos)
  also have "\<dots> \<longleftrightarrow> m1 * 2 ^ nat (e1 - c) < m2 * 2 ^ nat (e2 - c)"
    by (rule of_int_less_iff)
  finally show ?thesis by (simp add: c_def)
qed

lemma float_le_value:
  "float_le (Finite m1 e1) (Finite m2 e2)
     \<longleftrightarrow> (of_int m1 * 2 powi e1 :: rat) \<le> of_int m2 * 2 powi e2"
  unfolding float_le_def float_lt_value by (simp add: not_less)

lemma float_lt_asym: "float_lt a b \<Longrightarrow> \<not> float_lt b a"
  by (cases a; cases b) (auto simp: min.commute)

lemma float_lt_irrefl: "\<not> float_lt a a"
  using float_lt_asym by blast

lemma float_le_min_max: "float_le (py_min a b) (py_max a b)"
  using float_lt_asym[of b a] float_lt_irrefl[of a]
  by (auto simp: float_le_def py_min_def py_max_def)

lemma hd_split: "hd (split c s) = takeWhile (\<lambda>x. x \<noteq> c) s"
proof (induction s)
  case Nil
  show ?case by simp
next
  case (Cons x xs)
  obtain h t where sp: "split c xs = h # t"
    by (cases "split c xs") auto
  from Cons sp show ?case by auto
qed

lemma startswith_append: "startswith (p @ r) p"
  by (simp add: startswith_def)

lemma startswith_decompose: "startswith s p \<Longrightarrow> s = p @ drop (length p) s"
  by (metis append_take_drop_id startswith_def)

lemma entry_prefix:
  assumes "startswith line ''Entry:''"
  shows "hd (split (CHR '':'') line) @ '': '' = ''Entry: ''"
proof -
  obtain r where "line = ''Entry:'' @ r"
    using startswith_decompose[OF assms] by blast
  then show ?thesis by (simp add: hd_split)
qed

lemma format_line_entry:
  assumes "startswith line ''Entry:''" and "contains '' - '' line"
  shows "format_line line = ''Entry: '' @ sort_price_range (strip (drop 7 line))"
proof -
  have p: "hd (split (CHR '':'') line) @ '': '' = ''Entry: ''"
    by (rule entry_prefix[OF assms(1)])
  have len: "length ''Entry: '' = 7"
    by simp
  show ?thesis
    unfolding format_line_def Let_def p len using assms by simp
qed

lemma format_line_other:
  "\<not> (startswith line ''Entry:'' \<and> contains '' - '' line) \<Longrightarrow> format_line line = line"
  by (auto simp: format_line_def)

lemma sort_price_range_two:
  assumes "findall_num s = [t1, t2]" and "py_float t1 = Inr a" and "py_float t2 = Inr b"
  shows "sort_price_range s = float_repr (py_min a b) @ '' - '' @ float_repr (py_max a b)"
  using assms by (simp add: sort_price_range_def)

lemma sort_price_range_other:
  "length (findall_num s) \<noteq> 2 \<Longrightarrow> sort_price_range s = s"
  by (simp add: sort_price_range_def)

lemma index_of_absent:
  "x \<notin> set xs \<Longrightarrow> index_of xs x = Inl (ValueError (quoted x @ '' is not in list''))"
  by (induction xs) auto

lemma first_line_startswith:
  "first_line p sections = [] \<or> startswith (first_line p sections) p"
proof (cases "filter (\<lambda>line. startswith line p) sections")
  case Nil
  then show ?thesis by (simp add: first_line_def)
next
  case (Cons l ls)
  then have "l \<in> set (filter (\<lambda>line. startswith line p) sections)"
    by simp
  then have "startswith l p" by simp
  with Cons show ?thesis by (simp add: first_line_def)
qed

lemma first_line_absent:
  "\<forall>line \<in> set sections. \<not> startswith line p \<Longrightarrow> first_line p sections = []"
  by (simp add: first_line_def filter_False)

lemma reason_defined:
  assumes "rl = [] \<or> startswith rl ''REASON:''"
  shows "\<exists>reason. (if rl \<noteq> []
                 then (case item (split1 (CHR '':'') rl) 1 of
                         Inl e \<Rightarrow> Inl e | Inr r \<Rightarrow> Inr (Some (strip r)))
                 else Inr None) = Inr reason"
proof (cases "rl = []")
  case True
  then show ?thesis by simp
next
  case False
  with assms have "startswith rl ''REASON:''" by simp
  then obtain r where "rl = ''REASON:'' @ r"
    using startswith_decompose by blast
  then have "CHR '':'' \<in> set rl" by simp
  then show ?thesis
    using False by (simp add: split1_def item_def)
qed

lemma parse_response_cases:
  assumes "text \<noteq> []"
  shows "\<exists>reason. parse_response text =
     (if \<not> contains ''true'' (lower (first_line ''VALID:'' (split newline (strip text))))
      then Inr (False, reason, None)
      else (case index_of (split newline (strip text)) ''FORMAT:'' of
              Inl e \<Rightarrow> Inl e
            | Inr i \<Rightarrow>
                if strip (join [newline] (drop (i + 1) (split newline (strip text)))) = []
                   \<or> strip (join [newline] (drop (i + 1) (split newline (strip text)))) = ''None''
                then Inr (False, Some ''Failed to format message'', None)
                else Inr (True, None, Some (format_final_response
                       (strip (join [newline] (drop (i + 1) (split newline (strip text)))))))))"
proof -
  let ?rl = "first_line ''REASON:'' (split newline (strip text))"
  obtain reason where r: "(if ?rl \<noteq> []
                 then (case item (split1 (CHR '':'') ?rl) 1 of
                         Inl e \<Rightarrow> Inl e | Inr r \<Rightarrow> Inr (Some (strip r)))
                 else Inr None) = Inr reason"
    using reason_defined[OF first_line_startswith] by blast
  show ?thesis
    unfolding parse_response_def Let_def r using assms
    by (intro exI[of _ reason]) simp
qed

lemma format_line_nonempty: "line \<noteq> [] \<Longrightarrow> format_line line \<noteq> []"
  by (simp add: format_line_def Let_def)

lemma format_final_response_nonempty:
  assumes "s \<noteq> []"
  shows "format_final_response s \<noteq> []"
proof
  assume e: "format_final_response s = []"
  have "map format_line (split newline s) = [Nil]"
    using format_final_response_lines[of s] e by simp
  then obtain l where l: "split newline s = [l]" "format_line l = []"
    by (auto simp: map_eq_Cons_conv)
  have "join [newline] (split newline s) = s"
    by (rule join_split)
  with l have "l = s" by simp
  with l assms show False
    using format_line_nonempty by blast
qed

lemma process_with_llm_valid:
  assumes "process_with_llm generate message_text = (True, reason, formatted)"
  shows "reason = None \<and> (\<exists>s. formatted = Some s \<and> s \<noteq> [])"
proof (cases "generate (prompt message_text)")
  case (Inl e)
  with assms show ?thesis by (simp add: process_with_llm_def)
next
  case (Inr resp)
  show ?thesis
  proof (cases "resp = []")
    case True
    with Inr assms show ?thesis
      by (simp add: process_with_llm_def parse_response_def)
  next
    case False
    from parse_response_cases[OF False] Inr assms show ?thesis
      by (auto simp: process_with_llm_def format_final_response_nonempty
          split: if_splits sum.splits)
  qed
qed

lemma call_process_with_llm_valid:
  assumes "call_process_with_llm generate message_text = Inr (True, reason, formatted)"
  shows "\<exists>s. formatted = Some s \<and> s \<noteq> []"
proof (cases "generate (prompt message_text)")
  case (Inl r)
  show ?thesis
  proof (cases r)
    case (Exc e)
    with Inl assms
    have "process_with_llm (raising e) message_text = (True, reason, formatted)"
      by (simp add: call_process_with_llm_def)
    then show ?thesis using process_with_llm_valid by blast
  next
    case (BaseExc b)
    with Inl assms show ?thesis by (simp add: call_process_with_llm_def)
  qed
next
  case (Inr resp)
  with assms have "process_with_llm (canned resp) message_text = (True, reason, formatted)"
    by (simp add: call_process_with_llm_def)
  then show ?thesis using process_with_llm_valid by blast
qed

lemma handler_body_no_forward:
  "filter is_forward (fst (handler_body w msg)) = []
   \<and> Log WARNING ''LLM formatting failed, forwarding original message''
       \<notin> set (fst (handler_body w msg))"
proof (cases "get_chat w")
  case (Inl r)
  then show ?thesis by (simp add: handler_body_def)
next
  case (Inr c)
  show ?thesis
  proof (cases "call_process_with_llm (generate_content w) (raw_text msg)")
    case (Inl r)
    with Inr show ?thesis by (simp add: handler_body_def Let_def)
  next
    case verdict: (Inr vrf)
    obtain v r f where p: "vrf = (v, r, f)"
      by (cases vrf) auto
    show ?thesis
    proof (cases v)
      case False
      with Inr verdict p show ?thesis by (simp add: handler_body_def Let_def)
    next
      case True
      with verdict p
      have "call_process_with_llm (generate_content w) (raw_text msg) = Inr (True, r, f)"
        by simp
      then obtain s where "f = Some s" "s \<noteq> []"
        using call_process_with_llm_valid by blast
      with Inr verdict p True show ?thesis
        by (simp add: handler_body_def Let_def split: option.splits)
    qed
  qed
qed

lemma handler_body_generation_failure:
  assumes "get_chat w = Inr c" and "raw_text msg \<noteq> []"
    and "generate_content w (prompt (raw_text msg)) = Inl (Exc e)"
  shows "handler_body w msg =
           ([GetChat,
             Log INFO (''Received message from source group: '' @ title c
                       @ '' (ID: '' @ str_int (chat_id c) @ '')''),
             Log DEBUG (''Skipping invalid trading message: ''
                        @ ''Error processing message: '' @ str_exn e)],
            Inr ())"
proof -
  have "process_with_llm (raising e) (raw_text msg)
          = (False, Some (''Error processing message: '' @ str_exn e), None)"
    by (simp add: process_with_llm_def raising_def)
  with assms(3) have "call_process_with_llm (generate_content w) (raw_text msg)
          = Inr (False, Some (''Error processing message: '' @ str_exn e), None)"
    by (simp add: call_process_with_llm_def)
  with assms(1,2) show ?thesis
    by (simp add: handler_body_def Let_def str_opt_def)
qed

section \<open>The float model on known values\<close>

text \<open>
  The conversions agree with CPython on values whose printed form is well known: a
  short decimal prints as itself, an integer gains \<open>.0\<close>, \<open>10 ^ 23\<close> and \<open>10 ^ 16\<close>
  print in exponent notation, \<open>2 ^ 53 + 1\<close> rounds to even, and a string with two dots
  is no float literal.
\<close>

lemma float_known_values:
  "map_sum str_exn float_repr (py_float ''0.1'') = Inr ''0.1''"
  "map_sum str_exn float_repr (py_float ''2'') = Inr ''2.0''"
  "map_sum str_exn float_repr (py_float ''.5'') = Inr ''0.5''"
  "map_sum str_exn float_repr (py_float ''000123.4500'') = Inr ''123.45''"
  "map_sum str_exn float_repr (py_float ''100000000000000000000000'') = Inr ''1e+23''"
  "map_sum str_exn float_repr (py_float ''10000000000000000'') = Inr ''1e+16''"
  "map_sum str_exn float_repr (py_float ''9007199254740993'') = Inr ''9007199254740992.0''"
  "map_sum str_exn float_repr (py_float ''0.00001'') = Inr ''1e-05''"
  "map_sum str_exn float_repr (py_float ''1.2.3'')
     = Inl (''could not convert string to float: '' @ quoted ''1.2.3'')"
  by code_simp+

section \<open>Claims about the post-processing\<close>

text \<open>
  Claim C1, amended. Take any text with a line that begins with \<open>Entry: \<close> (the colon
  followed by one space), contains \<open> - \<close>, and whose remainder, stripped of surrounding
  white space, holds exactly two runs of digits and dots, each a float literal, with
  values \<open>a\<close> and \<open>b\<close>. The post-processing rewrites that line, in its place, as
  \<open>Entry: \<close> followed by the smaller of the two values, \<open> - \<close> and the larger; the
  prefix up to and including the colon and the space is kept. A sign in front of a
  number is not part of the scanned token, so \<open>a\<close> and \<open>b\<close> are magnitudes.
\<close>

theorem entry_range_sorted:
  assumes "i < length (split newline text)"
    and "split newline text ! i = ''Entry: '' @ rest"
    and "contains '' - '' (''Entry: '' @ rest)"
    and "findall_num (strip rest) = [t1, t2]"
    and "py_float t1 = Inr a"
    and "py_float t2 = Inr b"
  shows "split newline (format_final_response text) ! i =
           ''Entry: '' @ float_repr (py_min a b) @ '' - '' @ float_repr (py_max a b)"
proof -
  let ?line = "''Entry: '' @ rest"
  have sw: "startswith ?line ''Entry:''"
    by (simp add: startswith_def)
  have "drop 7 ?line = rest" by simp
  then have "format_line ?line = ''Entry: '' @ sort_price_range (strip rest)"
    using format_line_entry[OF sw assms(3)] by simp
  also have "\<dots> = ''Entry: '' @ float_repr (py_min a b) @ '' - '' @ float_repr (py_max a b)"
    using sort_price_range_two[OF assms(4-6)] by simp
  finally have "format_line ?line =
      ''Entry: '' @ float_repr (py_min a b) @ '' - '' @ float_repr (py_max a b)" .
  with assms(1,2) show ?thesis
    by (simp add: format_final_response_lines)
qed

text \<open>The theorem at the two-line block \<open>Type: BUY\<close>, \<open>Entry: 2 - 1\<close>.\<close>

theorem entry_range_sorted_witness:
  "1 < length (split newline (''Type: BUY'' @ [newline] @ ''Entry: 2 - 1''))
   \<and> split newline (''Type: BUY'' @ [newline] @ ''Entry: 2 - 1'') ! 1 = ''Entry: '' @ ''2 - 1''
   \<and> contains '' - '' (''Entry: '' @ ''2 - 1'')
   \<and> findall_num (strip ''2 - 1'') = [''2'', ''1'']
   \<and> py_float ''2'' = Inr (to_double 2 1)
   \<and> py_float ''1'' = Inr (to_double 1 1)
   \<and> split newline (format_final_response (''Type: BUY'' @ [newline] @ ''Entry: 2 - 1'')) ! 1
       = ''Entry: '' @ float_repr (py_min (to_double 2 1) (to_double 1 1)) @ '' - ''
         @ float_repr (py_max (to_double 2 1) (to_double 1 1))
   \<and> float_repr (py_min (to_double 2 1) (to_double 1 1)) = ''1.0''
   \<and> float_repr (py_max (to_double 2 1) (to_double 1 1)) = ''2.0''"
proof -
  have h1: "1 < length (split newline (''Type: BUY'' @ [newline] @ ''Entry: 2 - 1''))"
    by code_simp
  have h2: "split newline (''Type: BUY'' @ [newline] @ ''Entry: 2 - 1'') ! 1
              = ''Entry: '' @ ''2 - 1''"
    by code_simp
  have h3: "contains '' - '' (''Entry: '' @ ''2 - 1'')"
    by code_simp
  have h4: "findall_num (strip ''2 - 1'') = [''2'', ''1'']"
    by code_simp
  have h5: "py_float ''2'' = Inr (to_double 2 1)"
    by code_simp
  have h6: "py_float ''1'' = Inr (to_double 1 1)"
    by code_simp
  have lo: "float_repr (py_min (to_double 2 1) (to_double 1 1)) = ''1.0''"
    by code_simp
  have hi: "float_repr (py_max (to_double 2 1) (to_double 1 1)) = ''2.0''"
    by code_simp
  note c = entry_range_sorted[OF h1 h2 h3 h4 h5 h6]
  show ?thesis
    by (rule conjI[OF h1 conjI[OF h2 conjI[OF h3 conjI[OF h4 conjI[OF h5 conjI[OF h6
          conjI[OF c conjI[OF lo hi]]]]]]]])
qed

text \<open>
  The claim as stated fails on a signed number: in \<open>Entry: -5.5 - 3.5\<close> the two numbers
  are \<open>-5.5\<close> and \<open>3.5\<close>, whose minimum and maximum are \<open>-5.5\<close> and \<open>3.5\<close>, but the
  scan drops the sign and the line becomes \<open>Entry: 3.5 - 5.5\<close>.
\<close>

theorem entry_signed_counterexample:
  "format_final_response ''Entry: -5.5 - 3.5'' = ''Entry: 3.5 - 5.5''
   \<and> format_final_response ''Entry: -5.5 - 3.5'' \<noteq> ''Entry: -5.5 - 3.5''"
  by code_simp

text \<open>
  Claim C3 does not hold of the code. The docstring of \<open>sort_price_range\<close> promises
  that \<open>2343 - 1234\<close> becomes \<open>1234 - 2343\<close>, but the numbers pass through \<open>float\<close>
  and are printed as floats: the already sorted line \<open>Entry: 1 - 2\<close> comes back as
  \<open>Entry: 1.0 - 2.0\<close>.
\<close>

theorem entry_one_two_reprinted:
  "format_final_response ''Entry: 1 - 2'' = ''Entry: 1.0 - 2.0''"
  by code_simp

text \<open>
  Claim C4, amended. Take any text with a line that begins with \<open>Entry: \<close> (the colon
  followed by one space), contains \<open> - \<close>, and from whose remainder, stripped of
  surrounding white space, the scan does not extract exactly two tokens. The
  post-processing raises no error and emits, in the line's place, \<open>Entry: \<close> followed
  by the stripped remainder; the line is unchanged character for character exactly
  when its remainder has no leading and no trailing white space.
\<close>

theorem entry_not_two_tokens:
  assumes "i < length (split newline text)"
    and "split newline text ! i = ''Entry: '' @ rest"
    and "contains '' - '' (''Entry: '' @ rest)"
    and "length (findall_num (strip rest)) \<noteq> 2"
  shows "split newline (format_final_response text) ! i = ''Entry: '' @ strip rest
       \<and> (split newline (format_final_response text) ! i = split newline text ! i
            \<longleftrightarrow> strip rest = rest)"
proof -
  let ?line = "''Entry: '' @ rest"
  have sw: "startswith ?line ''Entry:''"
    by (simp add: startswith_def)
  have "drop 7 ?line = rest" by simp
  then have "format_line ?line = ''Entry: '' @ sort_price_range (strip rest)"
    using format_line_entry[OF sw assms(3)] by simp
  then have "format_line ?line = ''Entry: '' @ strip rest"
    using sort_price_range_other[OF assms(4)] by simp
  with assms(1,2) show ?thesis
    by (simp add: format_final_response_lines)
qed

text \<open>The theorem at the one-line block \<open>Entry: 1 - 2 - 3\<close>, which stays as it is.\<close>

theorem entry_not_two_tokens_witness:
  "0 < length (split newline ''Entry: 1 - 2 - 3'')
   \<and> split newline ''Entry: 1 - 2 - 3'' ! 0 = ''Entry: '' @ ''1 - 2 - 3''
   \<and> contains '' - '' (''Entry: '' @ ''1 - 2 - 3'')
   \<and> length (findall_num (strip ''1 - 2 - 3'')) = 3
   \<and> strip ''1 - 2 - 3'' = ''1 - 2 - 3''
   \<and> split newline (format_final_response ''Entry: 1 - 2 - 3'') ! 0
       = split newline ''Entry: 1 - 2 - 3'' ! 0"
proof -
  have h1: "0 < length (split newline ''Entry: 1 - 2 - 3'')"
    by code_simp
  have h2: "split newline ''Entry: 1 - 2 - 3'' ! 0 = ''Entry: '' @ ''1 - 2 - 3''"
    by code_simp
  have h3: "contains '' - '' (''Entry: '' @ ''1 - 2 - 3'')"
    by code_simp
  have n: "length (findall_num (strip ''1 - 2 - 3'')) = 3"
    by code_simp
  then have h4: "length (findall_num (strip ''1 - 2 - 3'')) \<noteq> 2"
    by simp
  have s: "strip ''1 - 2 - 3'' = ''1 - 2 - 3''"
    by code_simp
  have c: "split newline (format_final_response ''Entry: 1 - 2 - 3'') ! 0
       = split newline ''Entry: 1 - 2 - 3'' ! 0"
    using entry_not_two_tokens[OF h1 h2 h3 h4] s by blast
  show ?thesis
    by (rule conjI[OF h1 conjI[OF h2 conjI[OF h3 conjI[OF n conjI[OF s c]]]]])
qed

text \<open>
  The claim as stated fails when the remainder carries extra white space: the line
  \<open>Entry:  1 - 2 - 3\<close>, with two spaces after the colon, begins with \<open>Entry:\<close>,
  contains \<open> - \<close> and yields three tokens, and it comes back with one space.
\<close>

theorem entry_not_two_tokens_counterexample:
  "startswith ''Entry:  1 - 2 - 3'' ''Entry:''
   \<and> contains '' - '' ''Entry:  1 - 2 - 3''
   \<and> findall_num ''Entry:  1 - 2 - 3'' = [''1'', ''2'', ''3'']
   \<and> format_final_response ''Entry:  1 - 2 - 3'' = ''Entry: 1 - 2 - 3''
   \<and> format_final_response ''Entry:  1 - 2 - 3'' \<noteq> ''Entry:  1 - 2 - 3''"
  by code_simp

text \<open>
  Claim C5. Whatever the line, the loop body leaves it as it is, or re-assembles it
  from \<open>Entry: \<close> and its stripped remainder, or rewrites it as a range of two numbers;
  in the last case the two numbers are the floats of the two scanned tokens, the
  smaller printed first: low \<open>\<le>\<close> high, in the order of the values of the floats
  (\<open>float_le_value\<close>). By \<open>format_final_response_lines\<close> the lines of the post-processed
  block are the results of the loop body on the lines of the block.
\<close>

theorem rewritten_range_ordered:
  "format_line line = line
   \<or> format_line line = ''Entry: '' @ strip (drop 7 line)
   \<or> (\<exists>t1 t2 a b. findall_num (strip (drop 7 line)) = [t1, t2]
        \<and> py_float t1 = Inr a \<and> py_float t2 = Inr b
        \<and> format_line line =
            ''Entry: '' @ float_repr (py_min a b) @ '' - '' @ float_repr (py_max a b)
        \<and> float_le (py_min a b) (py_max a b))"
proof (cases "startswith line ''Entry:'' \<and> contains '' - '' line")
  case False
  then show ?thesis by (simp add: format_line_other)
next
  case True
  then have fl: "format_line line = ''Entry: '' @ sort_price_range (strip (drop 7 line))"
    by (simp add: format_line_entry)
  let ?s = "strip (drop 7 line)"
  show ?thesis
  proof (cases "\<exists>t1 t2 a b. findall_num ?s = [t1, t2] \<and> py_float t1 = Inr a \<and> py_float t2 = Inr b")
    case True
    then obtain t1 t2 a b where h: "findall_num ?s = [t1, t2]" "py_float t1 = Inr a" "py_float t2 = Inr b"
      by blast
    from sort_price_range_two[OF h] fl h float_le_min_max[of a b] show ?thesis
      by auto
  next
    case False
    have "sort_price_range ?s = ?s"
    proof (cases "length (findall_num ?s) = 2")
      case False
      then show ?thesis by (rule sort_price_range_other)
    next
      case True
      then obtain t1 t2 where ts: "findall_num ?s = [t1, t2]"
        by (metis (no_types, lifting) One_nat_def Suc_1 length_0_conv length_Suc_conv)
      with False have "(\<exists>e. py_float t1 = Inl e) \<or> (\<exists>e. py_float t2 = Inl e)"
        by (metis sum.exhaust_sel sum.collapse)
      with ts show ?thesis
        by (auto simp: sort_price_range_def split: sum.splits)
    qed
    with fl show ?thesis by simp
  qed
qed

text \<open>The theorem at the line \<open>Entry: 2 - 1\<close>, which is neither kept nor re-assembled.\<close>

theorem rewritten_range_ordered_witness:
  "format_line ''Entry: 2 - 1'' = ''Entry: 1.0 - 2.0''
   \<and> (\<exists>t1 t2 a b. findall_num (strip (drop 7 ''Entry: 2 - 1'')) = [t1, t2]
        \<and> py_float t1 = Inr a \<and> py_float t2 = Inr b
        \<and> format_line ''Entry: 2 - 1'' =
            ''Entry: '' @ float_repr (py_min a b) @ '' - '' @ float_repr (py_max a b)
        \<and> float_le (py_min a b) (py_max a b))"
proof -
  have v: "format_line ''Entry: 2 - 1'' = ''Entry: 1.0 - 2.0''"
    by code_simp
  have n1: "format_line ''Entry: 2 - 1'' \<noteq> ''Entry: 2 - 1''"
    by code_simp
  have n2: "format_line ''Entry: 2 - 1'' \<noteq> ''Entry: '' @ strip (drop 7 ''Entry: 2 - 1'')"
    by code_simp
  from rewritten_range_ordered[of "''Entry: 2 - 1''"] n1 n2 v show ?thesis
    by blast
qed

text \<open>
  Claim C6. A format block none of whose lines begins with \<open>Entry:\<close> comes out of the
  post-processing unchanged.
\<close>

theorem no_entry_unchanged:
  assumes "\<forall>line \<in> set (split newline text). \<not> startswith line ''Entry:''"
  shows "format_final_response text = text"
proof -
  have "map format_line (split newline text) = split newline text"
    using assms by (simp add: map_idI format_line_other)
  then show ?thesis
    by (simp add: format_final_response_def join_split)
qed

text \<open>The theorem at the block \<open>Asset: GOLD\<close>, \<open>Stop Loss: 2926.88\<close>.\<close>

theorem no_entry_unchanged_witness:
  "list_all (\<lambda>line. \<not> startswith line ''Entry:'')
     (split newline (''Asset: GOLD'' @ [newline] @ ''Stop Loss: 2926.88''))
   \<and> format_final_response (''Asset: GOLD'' @ [newline] @ ''Stop Loss: 2926.88'')
       = ''Asset: GOLD'' @ [newline] @ ''Stop Loss: 2926.88''"
proof -
  have h: "list_all (\<lambda>line. \<not> startswith line ''Entry:'')
     (split newline (''Asset: GOLD'' @ [newline] @ ''Stop Loss: 2926.88''))"
    by code_simp
  then have "\<forall>line \<in> set (split newline (''Asset: GOLD'' @ [newline] @ ''Stop Loss: 2926.88'')).
     \<not> startswith line ''Entry:''"
    by (simp only: list_all_iff)
  from h no_entry_unchanged[OF this] show ?thesis
    by (rule conjI)
qed

text \<open>
  Claim C8. On the block \<open>Entry: 2934.88 - 2930.88\<close>, \<open>Stop Loss: 2926.88\<close> the
  post-processing returns \<open>Entry: 2930.88 - 2934.88\<close>, \<open>Stop Loss: 2926.88\<close>.
\<close>

theorem end_to_end_example:
  "format_final_response (''Entry: 2934.88 - 2930.88'' @ [newline] @ ''Stop Loss: 2926.88'')
     = ''Entry: 2930.88 - 2934.88'' @ [newline] @ ''Stop Loss: 2926.88''"
  by code_simp

section \<open>Claims about the verdict\<close>

text \<open>
  Claim C2, amended. Take any non-empty response whose validity line indicates true.
  If no line of the response equals \<open>FORMAT:\<close>, \<open>process_with_llm\<close> returns
  isValid = false and no formatted text, with a reason that begins
  \<open>Error processing message: \<close>. If a line equals \<open>FORMAT:\<close> and what follows the first
  such line is, once stripped, empty or \<open>None\<close>, it returns isValid = false and no
  formatted text, with the reason \<open>Failed to format message\<close>. The lines are those of
  the response stripped of surrounding white space.
\<close>

theorem missing_format_block:
  assumes "generate (prompt message_text) = Inr text"
    and "text \<noteq> []"
    and "contains ''true'' (lower (first_line ''VALID:'' (split newline (strip text))))"
  shows "(''FORMAT:'' \<notin> set (split newline (strip text)) \<longrightarrow>
            (\<exists>msg. process_with_llm generate message_text =
               (False, Some (''Error processing message: '' @ msg), None)))
       \<and> (\<forall>i. index_of (split newline (strip text)) ''FORMAT:'' = Inr i
              \<and> (strip (join [newline] (drop (i + 1) (split newline (strip text)))) = []
                 \<or> strip (join [newline] (drop (i + 1) (split newline (strip text)))) = ''None'')
            \<longrightarrow> process_with_llm generate message_text =
                  (False, Some ''Failed to format message'', None))"
proof -
  obtain reason where p: "parse_response text =
     (if \<not> contains ''true'' (lower (first_line ''VALID:'' (split newline (strip text))))
      then Inr (False, reason, None)
      else (case index_of (split newline (strip text)) ''FORMAT:'' of
              Inl e \<Rightarrow> Inl e
            | Inr i \<Rightarrow>
                if strip (join [newline] (drop (i + 1) (split newline (strip text)))) = []
                   \<or> strip (join [newline] (drop (i + 1) (split newline (strip text)))) = ''None''
                then Inr (False, Some ''Failed to format message'', None)
                else Inr (True, None, Some (format_final_response
                       (strip (join [newline] (drop (i + 1) (split newline (strip text)))))))))"
    using parse_response_cases[OF assms(2)] by blast
  have a: "\<exists>msg. process_with_llm generate message_text =
               (False, Some (''Error processing message: '' @ msg), None)"
    if "''FORMAT:'' \<notin> set (split newline (strip text))"
    using index_of_absent[OF that] p assms(1,3)
    by (simp add: process_with_llm_def)
  have b: "process_with_llm generate message_text =
                  (False, Some ''Failed to format message'', None)"
    if "index_of (split newline (strip text)) ''FORMAT:'' = Inr i"
      and "strip (join [newline] (drop (i + 1) (split newline (strip text)))) = []
                 \<or> strip (join [newline] (drop (i + 1) (split newline (strip text)))) = ''None''"
    for i
    using that p assms(1,3)
    by (simp add: process_with_llm_def)
  from a b show ?thesis by blast
qed

text \<open>
  The theorem at a response without a \<open>FORMAT:\<close> line and at one whose format block
  is \<open>None\<close>.
\<close>

theorem missing_format_block_witness:
  "canned response_without_format (prompt ''buy gold'') = Inr response_without_format
   \<and> response_without_format \<noteq> []
   \<and> contains ''true'' (lower (first_line ''VALID:'' (split newline (strip response_without_format))))
   \<and> ''FORMAT:'' \<notin> set (split newline (strip response_without_format))
   \<and> (\<exists>msg. process_with_llm (canned response_without_format) ''buy gold''
         = (False, Some (''Error processing message: '' @ msg), None))
   \<and> canned response_format_none (prompt ''buy gold'') = Inr response_format_none
   \<and> response_format_none \<noteq> []
   \<and> contains ''true'' (lower (first_line ''VALID:'' (split newline (strip response_format_none))))
   \<and> index_of (split newline (strip response_format_none)) ''FORMAT:'' = Inr 2
   \<and> strip (join [newline] (drop (2 + 1) (split newline (strip response_format_none)))) = ''None''
   \<and> process_with_llm (canned response_format_none) ''buy gold''
       = (False, Some ''Failed to format message'', None)"
proof -
  have a1: "canned response_without_format (prompt ''buy gold'') = Inr response_without_format"
    by (simp add: canned_def)
  have a2: "response_without_format \<noteq> []"
    by code_simp
  have a3: "contains ''true''
      (lower (first_line ''VALID:'' (split newline (strip response_without_format))))"
    by code_simp
  have a4: "''FORMAT:'' \<notin> set (split newline (strip response_without_format))"
    by code_simp
  have a5: "\<exists>msg. process_with_llm (canned response_without_format) ''buy gold''
         = (False, Some (''Error processing message: '' @ msg), None)"
    using missing_format_block[of "canned response_without_format" "''buy gold''"
        response_without_format, OF a1 a2 a3] a4
    by blast
  have b1: "canned response_format_none (prompt ''buy gold'') = Inr response_format_none"
    by (simp add: canned_def)
  have b2: "response_format_none \<noteq> []"
    by code_simp
  have b3: "contains ''true''
      (lower (first_line ''VALID:'' (split newline (strip response_format_none))))"
    by code_simp
  have b4: "index_of (split newline (strip response_format_none)) ''FORMAT:'' = Inr 2"
    by code_simp
  have b5: "strip (join [newline] (drop (2 + 1) (split newline (strip response_format_none))))
      = ''None''"
    by code_simp
  have b6: "process_with_llm (canned response_format_none) ''buy gold''
       = (False, Some ''Failed to format message'', None)"
    using missing_format_block[of "canned response_format_none" "''buy gold''"
        response_format_none, OF b1 b2 b3] b4 b5
    by blast
  show ?thesis
    by (rule conjI[OF a1 conjI[OF a2 conjI[OF a3 conjI[OF a4 conjI[OF a5
          conjI[OF b1 conjI[OF b2 conjI[OF b3 conjI[OF b4 conjI[OF b5 b6]]]]]]]]]])
qed

text \<open>
  The claim as stated fails on a response with a positive validity line and no
  \<open>FORMAT:\<close> line at all: \<open>list.index\<close> raises, and the reason is the one of the
  general handler, not \<open>Failed to format message\<close>.
\<close>

theorem missing_format_block_counterexample:
  "contains ''true'' (lower (first_line ''VALID:'' (split newline response_without_format)))
   \<and> first_line ''FORMAT:'' (split newline response_without_format) = []
   \<and> process_with_llm (canned response_without_format) ''buy gold''
       = (False, Some (''Error processing message: '' @ quoted ''FORMAT:'' @ '' is not in list''),
          None)
   \<and> fst (snd (process_with_llm (canned response_without_format) ''buy gold''))
       \<noteq> Some ''Failed to format message''"
  by code_simp

text \<open>
  Claim C7, amended. Take any response in which, once the white space around the whole
  response is stripped, no line begins with \<open>VALID:\<close>. Then \<open>process_with_llm\<close>
  returns isValid = false.
\<close>

theorem no_valid_line_invalid:
  assumes "generate (prompt message_text) = Inr text"
    and "\<forall>line \<in> set (split newline (strip text)). \<not> startswith line ''VALID:''"
  shows "fst (process_with_llm generate message_text) = False"
proof (cases "text = []")
  case True
  with assms(1) show ?thesis
    by (simp add: process_with_llm_def parse_response_def)
next
  case False
  have v: "first_line ''VALID:'' (split newline (strip text)) = []"
    using assms(2) by (rule first_line_absent)
  have "\<not> contains ''true'' (lower [])"
    by (simp add: lower_def)
  with v parse_response_cases[OF False] assms(1) show ?thesis
    by (auto simp: process_with_llm_def)
qed

text \<open>The theorem at a response that starts with its reason line.\<close>

theorem no_valid_line_invalid_witness:
  "canned response_no_valid (prompt ''hello'') = Inr response_no_valid
   \<and> list_all (\<lambda>line. \<not> startswith line ''VALID:'') (split newline (strip response_no_valid))
   \<and> fst (process_with_llm (canned response_no_valid) ''hello'') = False"
proof -
  have h1: "canned response_no_valid (prompt ''hello'') = Inr response_no_valid"
    by (simp add: canned_def)
  have h: "list_all (\<lambda>line. \<not> startswith line ''VALID:'')
      (split newline (strip response_no_valid))"
    by code_simp
  then have h2: "\<forall>line \<in> set (split newline (strip response_no_valid)).
      \<not> startswith line ''VALID:''"
    by (simp only: list_all_iff)
  note c = no_valid_line_invalid[of "canned response_no_valid" "''hello''" response_no_valid,
      OF h1 h2]
  show ?thesis
    by (rule conjI[OF h1 conjI[OF h c]])
qed

text \<open>
  The claim as stated fails on a response whose validity line is indented: none of the
  three lines of the response begins with \<open>VALID:\<close>, the first beginning with a space,
  yet the response is stripped before it is split and the verdict is valid.
\<close>

theorem no_valid_line_counterexample:
  "split newline response_indented = ['' VALID: true'', ''FORMAT:'', ''Asset: GOLD'']
   \<and> \<not> startswith '' VALID: true'' ''VALID:''
   \<and> \<not> startswith ''FORMAT:'' ''VALID:''
   \<and> \<not> startswith ''Asset: GOLD'' ''VALID:''
   \<and> process_with_llm (canned response_indented) ''buy gold''
       = (True, None, Some ''Asset: GOLD'')"
  by code_simp

section \<open>Claims about the relay\<close>

text \<open>
  Claim C10. Whenever \<open>process_with_llm\<close> returns isValid = true, the reason is
  \<open>None\<close> and the formatted text is a non-empty string. Consequently the branch of the
  handler that forwards the original when the formatting is absent is never taken:
  its warning is in no run of the handler, and the body of the \<open>try\<close> forwards
  nothing.
\<close>

theorem valid_verdict_shape:
  "(process_with_llm generate message_text = (True, reason, formatted) \<longrightarrow>
      reason = None \<and> (\<exists>s. formatted = Some s \<and> s \<noteq> []))
   \<and> Log WARNING ''LLM formatting failed, forwarding original message''
       \<notin> set (fst (message_handler w msg))
   \<and> filter is_forward (fst (handler_body w msg)) = []"
proof -
  obtain t u where hb: "handler_body w msg = (t, u)"
    by (cases "handler_body w msg") auto
  with handler_body_no_forward[of w msg]
  have nt: "Log WARNING ''LLM formatting failed, forwarding original message'' \<notin> set t"
    by simp
  have "Log WARNING ''LLM formatting failed, forwarding original message''
       \<notin> set (fst (message_handler w msg))"
    using hb nt
    by (simp add: message_handler_def Let_def split: sum.splits option.splits raised.splits)
  with process_with_llm_valid handler_body_no_forward show ?thesis
    by blast
qed

text \<open>The theorem at a response that is valid and carries a format block.\<close>

theorem valid_verdict_shape_witness:
  "process_with_llm (canned response_valid) ''buy gold''
     = (True, None, Some (''Asset: GOLD'' @ [newline] @ ''Entry: 2930.88 - 2934.88''))
   \<and> (\<exists>s. Some (''Asset: GOLD'' @ [newline] @ ''Entry: 2930.88 - 2934.88'') = Some s \<and> s \<noteq> [])
   \<and> Log WARNING ''LLM formatting failed, forwarding original message''
       \<notin> set (fst (message_handler failing_world sample_message))
   \<and> filter is_forward (fst (handler_body failing_world sample_message)) = []"
proof -
  have h: "process_with_llm (canned response_valid) ''buy gold''
     = (True, None, Some (''Asset: GOLD'' @ [newline] @ ''Entry: 2930.88 - 2934.88''))"
    by code_simp
  from h valid_verdict_shape[of "canned response_valid" "''buy gold''" None
      "Some (''Asset: GOLD'' @ [newline] @ ''Entry: 2930.88 - 2934.88'')"
      failing_world sample_message]
  show ?thesis
    by blast
qed

text \<open>
  Claim C9, amended. When an exception below \<open>Exception\<close> leaves the body of the
  \<open>try\<close> (raised by the lookup of the chat or by the send), after the effects \<open>t\<close>,
  the handler logs the error and calls \<open>forward_messages\<close> once, with the destination
  and the unmodified message of the event: this is the only forward of the whole run.
  If that forward succeeds the handler logs it; if it raises below \<open>Exception\<close> the
  handler only logs the failure; in both cases it returns normally, with no further
  action. An exception outside \<open>Exception\<close> (a cancellation, a keyboard interrupt) is
  not caught: raised in the body it leaves the handler with no fallback forward, and
  raised by the fallback forward it leaves the handler with no log. A failure of the
  generation call below \<open>Exception\<close> does not leave the body: \<open>process_with_llm\<close> turns
  it into an invalid verdict and the message is dropped, with no forward. The handler
  never ends with an exception below \<open>Exception\<close>.
\<close>

theorem fallback_forward_once:
  "(\<forall>t e. handler_body w msg = (t, Inl (Exc e)) \<longrightarrow>
       filter is_forward (fst (message_handler w msg))
         = [ForwardMessages (destination_group w) msg]
     \<and> message_handler w msg =
         (case forward_messages w 0 of
            None \<Rightarrow>
              (t @ [Log ERROR (''Error processing message: '' @ str_exn e),
                    ForwardMessages (destination_group w) msg,
                    Log INFO ''Forwarded original message as fallback''],
               Inr ())
          | Some (Exc forward_error) \<Rightarrow>
              (t @ [Log ERROR (''Error processing message: '' @ str_exn e),
                    ForwardMessages (destination_group w) msg,
                    Log ERROR (''Failed to forward original message: ''
                               @ str_exn forward_error)],
               Inr ())
          | Some (BaseExc b) \<Rightarrow>
              (t @ [Log ERROR (''Error processing message: '' @ str_exn e),
                    ForwardMessages (destination_group w) msg],
               Inl (BaseExc b))))
   \<and> (\<forall>t b. handler_body w msg = (t, Inl (BaseExc b)) \<longrightarrow>
         message_handler w msg = (t, Inl (BaseExc b)) \<and> filter is_forward t = [])
   \<and> (\<forall>t. handler_body w msg = (t, Inr ()) \<longrightarrow>
         message_handler w msg = (t, Inr ()) \<and> filter is_forward t = [])
   \<and> (\<forall>c e. get_chat w = Inr c \<and> raw_text msg \<noteq> []
            \<and> generate_content w (prompt (raw_text msg)) = Inl (Exc e) \<longrightarrow>
         message_handler w msg =
           ([GetChat,
             Log INFO (''Received message from source group: '' @ title c
                       @ '' (ID: '' @ str_int (chat_id c) @ '')''),
             Log DEBUG (''Skipping invalid trading message: ''
                        @ ''Error processing message: '' @ str_exn e)],
            Inr ()))
   \<and> (\<forall>e. snd (message_handler w msg) \<noteq> Inl (Exc e))"
proof -
  obtain t u where hb: "handler_body w msg = (t, u)"
    by (cases "handler_body w msg") auto
  have nf: "filter is_forward t = []"
    using handler_body_no_forward[of w msg] hb by simp
  have a: "filter is_forward (fst (message_handler w msg))
         = [ForwardMessages (destination_group w) msg]
     \<and> message_handler w msg =
         (case forward_messages w 0 of
            None \<Rightarrow>
              (t @ [Log ERROR (''Error processing message: '' @ str_exn e),
                    ForwardMessages (destination_group w) msg,
                    Log INFO ''Forwarded original message as fallback''],
               Inr ())
          | Some (Exc forward_error) \<Rightarrow>
              (t @ [Log ERROR (''Error processing message: '' @ str_exn e),
                    ForwardMessages (destination_group w) msg,
                    Log ERROR (''Failed to forward original message: ''
                               @ str_exn forward_error)],
               Inr ())
          | Some (BaseExc b) \<Rightarrow>
              (t @ [Log ERROR (''Error processing message: '' @ str_exn e),
                    ForwardMessages (destination_group w) msg],
               Inl (BaseExc b)))"
    if "u = Inl (Exc e)" for e
    using that hb nf
    by (simp add: message_handler_def Let_def split: option.splits raised.splits)
  have b: "message_handler w msg = (t, Inl (BaseExc b))" if "u = Inl (BaseExc b)" for b
    using that hb by (simp add: message_handler_def)
  have c: "message_handler w msg = (t, Inr ())" if "u = Inr ()"
    using that hb by (simp add: message_handler_def)
  have d: "message_handler w msg =
           ([GetChat,
             Log INFO (''Received message from source group: '' @ title c
                       @ '' (ID: '' @ str_int (chat_id c) @ '')''),
             Log DEBUG (''Skipping invalid trading message: ''
                        @ ''Error processing message: '' @ str_exn e)],
            Inr ())"
    if "get_chat w = Inr c" "raw_text msg \<noteq> []"
      "generate_content w (prompt (raw_text msg)) = Inl (Exc e)" for c e
    using handler_body_generation_failure[OF that] by (simp add: message_handler_def)
  have e: "snd (message_handler w msg) \<noteq> Inl (Exc e)" for e
    using hb
    by (cases u)
      (auto simp: message_handler_def Let_def split: option.splits raised.splits)
  from a b c d e hb nf show ?thesis
    by auto
qed

text \<open>
  The theorem in the sample worlds: the send refused and the fallback forward
  refused, accepted or cancelled; the send cancelled; nothing refused; the generation
  call failing.
\<close>

theorem fallback_forward_once_witness:
  "handler_body failing_world sample_message = (sent_trace, Inl (Exc (External ''flood wait'')))
   \<and> message_handler failing_world sample_message
       = (sent_trace @ [Log ERROR ''Error processing message: flood wait'',
                        ForwardMessages 7 sample_message,
                        Log ERROR ''Failed to forward original message: forbidden''],
          Inr ())
   \<and> filter is_forward (fst (message_handler failing_world sample_message))
       = [ForwardMessages 7 sample_message]
   \<and> handler_body recovering_world sample_message
       = (sent_trace, Inl (Exc (External ''flood wait'')))
   \<and> message_handler recovering_world sample_message
       = (sent_trace @ [Log ERROR ''Error processing message: flood wait'',
                        ForwardMessages 7 sample_message,
                        Log INFO ''Forwarded original message as fallback''],
          Inr ())
   \<and> handler_body interrupted_world sample_message
       = (sent_trace, Inl (Exc (External ''flood wait'')))
   \<and> message_handler interrupted_world sample_message
       = (sent_trace @ [Log ERROR ''Error processing message: flood wait'',
                        ForwardMessages 7 sample_message],
          Inl (BaseExc ''CancelledError''))
   \<and> handler_body cancelled_world sample_message
       = (sent_trace, Inl (BaseExc ''CancelledError''))
   \<and> message_handler cancelled_world sample_message
       = (sent_trace, Inl (BaseExc ''CancelledError''))
   \<and> snd (handler_body working_world sample_message) = Inr ()
   \<and> message_handler working_world sample_message = handler_body working_world sample_message
   \<and> filter is_forward (fst (handler_body working_world sample_message)) = []
   \<and> get_chat quota_world = Inr \<lparr>title = ''signals'', chat_id = - 1001\<rparr>
   \<and> raw_text sample_message \<noteq> []
   \<and> generate_content quota_world (prompt (raw_text sample_message))
       = Inl (Exc (External ''quota exceeded''))
   \<and> message_handler quota_world sample_message
       = (received_trace
          @ [Log DEBUG ''Skipping invalid trading message: Error processing message: quota exceeded''],
          Inr ())"
proof -
  have d: "destination_group failing_world = 7" "destination_group recovering_world = 7"
    "destination_group interrupted_world = 7"
    by (simp_all add: failing_world_def recovering_world_def interrupted_world_def)
  have f1: "forward_messages failing_world 0 = Some (Exc (External ''forbidden''))"
    by (simp add: failing_world_def refuse_def)
  have f2: "forward_messages recovering_world 0 = None"
    by (simp add: recovering_world_def accept_def)
  have f3: "forward_messages interrupted_world 0 = Some (BaseExc ''CancelledError'')"
    by (simp add: interrupted_world_def refuse_def)
  have h1: "handler_body failing_world sample_message
      = (sent_trace, Inl (Exc (External ''flood wait'')))"
    by code_simp
  note a1 = fallback_forward_once[of failing_world sample_message, THEN conjunct1,
      rule_format, OF h1]
  from a1 have n1: "filter is_forward (fst (message_handler failing_world sample_message))
       = [ForwardMessages 7 sample_message]"
    unfolding d by (rule conjunct1)
  from a1 have c1: "message_handler failing_world sample_message
       = (sent_trace @ [Log ERROR ''Error processing message: flood wait'',
                        ForwardMessages 7 sample_message,
                        Log ERROR ''Failed to forward original message: forbidden''],
          Inr ())"
    by (simp add: f1 d)
  have h2: "handler_body recovering_world sample_message
      = (sent_trace, Inl (Exc (External ''flood wait'')))"
    by code_simp
  from fallback_forward_once[of recovering_world sample_message] h2
  have c2: "message_handler recovering_world sample_message
       = (sent_trace @ [Log ERROR ''Error processing message: flood wait'',
                        ForwardMessages 7 sample_message,
                        Log INFO ''Forwarded original message as fallback''],
          Inr ())"
    by (simp add: f2 d)
  have h3: "handler_body interrupted_world sample_message
      = (sent_trace, Inl (Exc (External ''flood wait'')))"
    by code_simp
  from fallback_forward_once[of interrupted_world sample_message] h3
  have c3: "message_handler interrupted_world sample_message
       = (sent_trace @ [Log ERROR ''Error processing message: flood wait'',
                        ForwardMessages 7 sample_message],
          Inl (BaseExc ''CancelledError''))"
    by (simp add: f3 d)
  have h4: "handler_body cancelled_world sample_message
      = (sent_trace, Inl (BaseExc ''CancelledError''))"
    by code_simp
  from fallback_forward_once[of cancelled_world sample_message] h4
  have c4: "message_handler cancelled_world sample_message
       = (sent_trace, Inl (BaseExc ''CancelledError''))"
    by simp
  have h5: "snd (handler_body working_world sample_message) = Inr ()"
    by code_simp
  then have h5': "handler_body working_world sample_message
      = (fst (handler_body working_world sample_message), Inr ())"
    by (metis prod.collapse)
  from fallback_forward_once[of working_world sample_message] h5'
  have c5: "message_handler working_world sample_message
        = (fst (handler_body working_world sample_message), Inr ())
      \<and> filter is_forward (fst (handler_body working_world sample_message)) = []"
    by blast
  with h5' have c5a: "message_handler working_world sample_message
       = handler_body working_world sample_message"
    and c5b: "filter is_forward (fst (handler_body working_world sample_message)) = []"
    by simp_all
  have g1: "get_chat quota_world = Inr \<lparr>title = ''signals'', chat_id = - 1001\<rparr>"
    by (simp add: quota_world_def failing_world_def)
  have g2: "raw_text sample_message \<noteq> []"
    by (simp add: sample_message_def)
  have g3: "generate_content quota_world (prompt (raw_text sample_message))
       = Inl (Exc (External ''quota exceeded''))"
    by (simp add: quota_world_def failing_def)
  have s: "str_int (- 1001) = ''-1001''"
    by code_simp
  from fallback_forward_once[of quota_world sample_message] g1 g2 g3
  have "message_handler quota_world sample_message =
           ([GetChat,
             Log INFO (''Received message from source group: ''
                       @ title \<lparr>title = ''signals'', chat_id = - 1001\<rparr>
                       @ '' (ID: '' @ str_int (chat_id \<lparr>title = ''signals'', chat_id = - 1001\<rparr>)
                       @ '')''),
             Log DEBUG (''Skipping invalid trading message: ''
                        @ ''Error processing message: '' @ str_exn (External ''quota exceeded''))],
            Inr ())"
    by blast
  then have c6: "message_handler quota_world sample_message
       = (received_trace
          @ [Log DEBUG ''Skipping invalid trading message: Error processing message: quota exceeded''],
          Inr ())"
    by (simp add: s received_trace_def)
  show ?thesis
    by (rule conjI[OF h1 conjI[OF c1 conjI[OF n1 conjI[OF h2 conjI[OF c2 conjI[OF h3
          conjI[OF c3 conjI[OF h4 conjI[OF c4 conjI[OF h5 conjI[OF c5a conjI[OF c5b
          conjI[OF g1 conjI[OF g2 conjI[OF g3 c6]]]]]]]]]]]]]]])
qed

text \<open>
  The claim as stated fails in two ways. When the send is cancelled, an exception is
  raised while sending, no fallback forward is attempted and the exception leaves the
  handler. When the generation call raises, an exception is raised while processing
  and the message is dropped with no forward at all.
\<close>

theorem fallback_forward_counterexample:
  "send_message cancelled_world (''Asset: GOLD'' @ [newline] @ ''Entry: 2930.88 - 2934.88'')
     = Some (BaseExc ''CancelledError'')
   \<and> message_handler cancelled_world sample_message
       = ([GetChat,
           Log INFO ''Received message from source group: signals (ID: -1001)'',
           SendMessage 7 (''Asset: GOLD'' @ [newline] @ ''Entry: 2930.88 - 2934.88'') False],
          Inl (BaseExc ''CancelledError''))
   \<and> generate_content quota_world (prompt (raw_text sample_message))
       = Inl (Exc (External ''quota exceeded''))
   \<and> message_handler quota_world sample_message
       = ([GetChat,
           Log INFO ''Received message from source group: signals (ID: -1001)'',
           Log DEBUG ''Skipping invalid trading message: Error processing message: quota exceeded''],
          Inr ())"
  by code_simp

end
